theory Spec2Isabelle
  imports Complex_Main "HOL-Library.Multiset"
begin

section \<open>The add-car form of the admin pages\<close>

text \<open>
  A shallow embedding of the \<^verbatim>\<open>AddCarForm\<close> component: its validation schema, its
  image list and its event handlers. JavaScript strings are lists of characters, the
  component's \<^verbatim>\<open>useState\<close> cells and the form library's values are the fields of
  one state record, and everything the component does to the outside (notifications,
  the two server actions, the router) is appended to an event list kept in that record.
\<close>

subsection \<open>Numbers and strings\<close>

text \<open>
  \<^verbatim>\<open>parseInt(val)\<close> with no radix, by the steps of the language definition: leading
  white space is dropped, a sign is read, a \<^verbatim>\<open>0x\<close> prefix selects radix 16, the
  longest run of digits of the radix is read, and an empty run gives \<^verbatim>\<open>NaN\<close>
  (\<open>None\<close> here). Characters are the code points below 256, so the white space
  characters are the six ASCII ones and the no-break space. The result is kept as an exact
  integer; the comparisons of the schema against 1900 and the next calendar year are the
  same on the nearest double.
\<close>

definition isWhiteSpace :: "char \<Rightarrow> bool" where
  "isWhiteSpace c \<longleftrightarrow> (of_char c :: nat) \<in> {9, 10, 11, 12, 13, 32, 160}"

definition isDecimalDigit :: "char \<Rightarrow> bool" where
  "isDecimalDigit c \<longleftrightarrow> 48 \<le> (of_char c :: nat) \<and> (of_char c :: nat) \<le> 57"

definition digitValue :: "char \<Rightarrow> nat option" where
  "digitValue c =
     (let n = (of_char c :: nat)
      in if 48 \<le> n \<and> n \<le> 57 then Some (n - 48)
         else if 97 \<le> n \<and> n \<le> 122 then Some (n - 87)
         else if 65 \<le> n \<and> n \<le> 90 then Some (n - 55)
         else None)"

definition isRadixDigit :: "nat \<Rightarrow> char \<Rightarrow> bool" where
  "isRadixDigit R c = (case digitValue c of None \<Rightarrow> False | Some v \<Rightarrow> v < R)"

definition mathInt :: "nat \<Rightarrow> string \<Rightarrow> nat" where
  "mathInt R Z = foldl (\<lambda>acc c. acc * R + (case digitValue c of None \<Rightarrow> 0 | Some v \<Rightarrow> v)) 0 Z"

definition parseInt :: "string \<Rightarrow> int option" where
  "parseInt inputString =
     (let S = dropWhile isWhiteSpace inputString;
          sign = (if S \<noteq> [] \<and> hd S = CHR ''-'' then - 1 else (1::int));
          S1 = (if S \<noteq> [] \<and> (hd S = CHR ''+'' \<or> hd S = CHR ''-'') then tl S else S);
          hex = (take 2 S1 = ''0x'' \<or> take 2 S1 = ''0X'');
          R = (if hex then 16 else 10);
          S2 = (if hex then drop 2 S1 else S1);
          Z = takeWhile (isRadixDigit R) S2
      in if Z = [] then None else Some (sign * int (mathInt R Z)))"

text \<open>
  The string form of an integer, as \<^verbatim>\<open>toString()\<close> and template literals print a
  number that is an integer of magnitude below \<open>10 ^ 21\<close>: its decimal digits, after a
  minus sign when negative.
\<close>

definition digitChar :: "nat \<Rightarrow> char" where
  "digitChar n = char_of (48 + n)"

fun digits :: "nat \<Rightarrow> string" where
  "digits n = (if n < 10 then [digitChar n] else digits (n div 10) @ [digitChar (n mod 10)])"

declare digits.simps [simp del]

definition toString :: "int \<Rightarrow> string" where
  "toString y = (if y < 0 then CHR ''-'' # digits (nat (- y)) else digits (nat y))"

subsection \<open>The form's values and the validation schema\<close>

text \<open>
  The values the form library holds, one field per key of \<^verbatim>\<open>defaultValues\<close>: every
  input of the form is a text input or a select, so every value is a string, but for the
  check box \<^verbatim>\<open>featured\<close>. The key \<^verbatim>\<open>make\<close> is the field \<open>make_field\<close>.
\<close>

record car_draft =
  make_field :: string
  model :: string
  year :: string
  price :: string
  mileage :: string
  color :: string
  fuelType :: string
  transmission :: string
  bodyType :: string
  seats :: string
  description :: string
  status :: string
  featured :: bool

definition defaultValues :: car_draft where
  "defaultValues =
     \<lparr>make_field = [], model = [], year = [], price = [], mileage = [], color = [],
      fuelType = [], transmission = [], bodyType = [], seats = [], description = [],
      status = ''AVAILABLE'', featured = False\<rparr>"

definition carStatuses :: "string list" where
  "carStatuses = [''AVAILABLE'', ''UNAVAILABLE'', ''SOLD'']"

text \<open>
  The checks of the schema library, each giving the message of its issue or \<open>None\<close>:
  \<^verbatim>\<open>z.string().min(n, message)\<close>, \<^verbatim>\<open>z.string().refine(check, message)\<close> and
  \<^verbatim>\<open>z.enum(options)\<close> with the library's own message.
\<close>

definition string_min :: "nat \<Rightarrow> string \<Rightarrow> string \<Rightarrow> string option" where
  "string_min n message val = (if length val < n then Some message else None)"

definition string_refine :: "(string \<Rightarrow> bool) \<Rightarrow> string \<Rightarrow> string \<Rightarrow> string option" where
  "string_refine check message val = (if check val then None else Some message)"

definition quoted :: "string \<Rightarrow> string" where
  "quoted v = [CHR 0x27] @ v @ [CHR 0x27]"

fun joinValues :: "string list \<Rightarrow> string" where
  "joinValues [] = []"
| "joinValues [v] = quoted v"
| "joinValues (v # vs) = quoted v @ '' | '' @ joinValues vs"

definition enum_check :: "string list \<Rightarrow> string \<Rightarrow> string option" where
  "enum_check options val =
     (if val \<in> set options then None
      else Some (''Invalid enum value. Expected '' @ joinValues options @ '', received ''
                 @ quoted val))"

text \<open>
  The refinement of the \<^verbatim>\<open>year\<close> key. \<open>currentYear\<close> is what
  \<^verbatim>\<open>new Date().getFullYear()\<close> returns when the check runs.
\<close>

definition year_refine :: "int \<Rightarrow> string \<Rightarrow> bool" where
  "year_refine currentYear val =
     (case parseInt val of
        None \<Rightarrow> False
      | Some y \<Rightarrow> y \<ge> 1900 \<and> y \<le> currentYear + 1)"

text \<open>\<^verbatim>\<open>carFormSchema\<close>: the keys of the object schema in their order, each with its check.\<close>

definition carFormSchema :: "int \<Rightarrow> (string \<times> (car_draft \<Rightarrow> string option)) list" where
  "carFormSchema currentYear =
     [(''make'', \<lambda>d. string_min 1 ''Make is required'' (make_field d)),
      (''model'', \<lambda>d. string_min 1 ''Model is required'' (model d)),
      (''year'', \<lambda>d. string_refine (year_refine currentYear) ''Valid year required'' (year d)),
      (''price'', \<lambda>d. string_min 1 ''Price is required'' (price d)),
      (''mileage'', \<lambda>d. string_min 1 ''Mileage is required'' (mileage d)),
      (''color'', \<lambda>d. string_min 1 ''Color is required'' (color d)),
      (''fuelType'', \<lambda>d. string_min 1 ''Fuel type is required'' (fuelType d)),
      (''transmission'', \<lambda>d. string_min 1 ''Transmission is required'' (transmission d)),
      (''bodyType'', \<lambda>d. string_min 1 ''Body type is required'' (bodyType d)),
      (''seats'', \<lambda>d. None),
      (''description'',
         \<lambda>d. string_min 10 ''Description must be at least 10 characters'' (description d)),
      (''status'', \<lambda>d. enum_check carStatuses (status d)),
      (''featured'', \<lambda>d. None)]"

text \<open>
  The resolver runs every check and keeps, for each key whose check fails, the message:
  the \<^verbatim>\<open>errors\<close> object of the form, as the list of its entries.
\<close>

definition zodResolver ::
  "(string \<times> (car_draft \<Rightarrow> string option)) list \<Rightarrow> car_draft \<Rightarrow> (string \<times> string) list" where
  "zodResolver schema values =
     List.map_filter (\<lambda>(key, check). map_option (Pair key) (check values)) schema"

text \<open>
  The keys whose check is \<^verbatim>\<open>min(1, message)\<close>, each with the selector of its value
  and its message: the required fields the validation properties speak of.
\<close>

definition requiredFields :: "(string \<times> (car_draft \<Rightarrow> string) \<times> string) list" where
  "requiredFields =
     [(''make'', make_field, ''Make is required''),
      (''model'', model, ''Model is required''),
      (''price'', price, ''Price is required''),
      (''mileage'', mileage, ''Mileage is required''),
      (''color'', color, ''Color is required''),
      (''fuelType'', fuelType, ''Fuel type is required''),
      (''transmission'', transmission, ''Transmission is required''),
      (''bodyType'', bodyType, ''Body type is required'')]"

subsection \<open>The component's state and what it does to the outside\<close>

record js_file =
  file_name :: string
  file_size :: nat
  file_result :: string

text \<open>
  \<open>file_result\<close> is the data string the file reader hands to \<^verbatim>\<open>onload\<close> for the
  file. A rejected promise carries an error with a message (empty when it has none); a
  response is an object with a \<^verbatim>\<open>success\<close> flag and, maybe, \<^verbatim>\<open>data\<close>.
\<close>

datatype js_error = Error (message: string)

datatype 'r outcome = Resolved 'r | Rejected js_error

record 'd response =
  success :: bool
  data :: "'d option"

text \<open>
  The details the image action returns. The handler calls \<^verbatim>\<open>toString()\<close> on the
  year and multiplies the confidence, so both are numbers; the other fields go to string
  inputs. \<^verbatim>\<open>Math.round\<close> is taken on an exact rational.
\<close>

record car_details =
  ai_make :: string
  ai_model :: string
  ai_year :: int
  ai_color :: string
  ai_bodyType :: string
  ai_fuelType :: string
  ai_price :: string
  ai_mileage :: string
  ai_transmission :: string
  ai_description :: string
  ai_confidence :: rat

definition Math_round :: "rat \<Rightarrow> int" where
  "Math_round x = \<lfloor>x + 1 / 2\<rfloor>"

text \<open>
  The argument \<^verbatim>\<open>carData\<close> of the create action: the validated values, with the
  results of \<^verbatim>\<open>parseInt\<close> for year, mileage and seats (\<^verbatim>\<open>null\<close> for seats left
  empty). The price stays the string \<^verbatim>\<open>parseFloat\<close> is applied to.
\<close>

datatype jsnum = NaN | Num int

definition toNumber :: "int option \<Rightarrow> jsnum" where
  "toNumber r = (case r of None \<Rightarrow> NaN | Some n \<Rightarrow> Num n)"

record car_data =
  values_of :: car_draft
  year_number :: jsnum
  mileage_number :: jsnum
  seats_number :: "jsnum option"

datatype event =
    ToastError string
  | ToastSuccess string "string option"
  | AddCar car_data "string list"
  | ProcessCarImageWithAI js_file
  | RouterPush string

record form_state =
  activeTab :: string
  uploadedImages :: "string list"
  imageError :: string
  imagePreview :: "string option"
  uploadedAiImage :: "js_file option"
  draft :: car_draft
  processImageResult :: "car_details response option"
  processImageError :: "js_error option"
  addCarResult :: "unit response option"
  events :: "event list"

definition initialState :: form_state where
  "initialState =
     \<lparr>activeTab = ''manual'', uploadedImages = [], imageError = [], imagePreview = None,
      uploadedAiImage = None, draft = defaultValues, processImageResult = None,
      processImageError = None, addCarResult = None, events = []\<rparr>"

definition toast :: "event \<Rightarrow> form_state \<Rightarrow> form_state" where
  "toast ev s = s\<lparr>events := events s @ [ev]\<rparr>"

subsection \<open>The two server actions behind the fetch hook\<close>

text \<open>
  Modelled from the spec: the hook \<^verbatim>\<open>useFetch\<close> of \<^verbatim>\<open>hooks/use-fetch\<close> and the
  actions \<^verbatim>\<open>addCar\<close> and \<^verbatim>\<open>processCarImageWithAI\<close> of \<^verbatim>\<open>actions/cars\<close> are not
  among the sources. The component takes \<^verbatim>\<open>data\<close>, \<^verbatim>\<open>error\<close> and \<^verbatim>\<open>fn\<close> from
  the hook; by the spec each action is one call, with no retry, that ends in a response
  with a \<^verbatim>\<open>success\<close> flag or in an error. So \<open>fn\<close> makes the call (an event) and
  stores a response as \<^verbatim>\<open>data\<close> and an error as \<^verbatim>\<open>error\<close>. How the call
  ends is the argument \<open>out\<close>; what the hook itself reports of a failed call is the
  argument \<open>report\<close>.
\<close>

definition addCarFn ::
  "(js_error \<Rightarrow> event list) \<Rightarrow> unit response outcome \<Rightarrow> car_data \<times> string list
     \<Rightarrow> form_state \<Rightarrow> form_state" where
  "addCarFn report out args s =
     (let s1 = toast (AddCar (fst args) (snd args)) s
      in case out of
           Resolved r \<Rightarrow> s1\<lparr>addCarResult := Some r\<rparr>
         | Rejected e \<Rightarrow> s1\<lparr>events := events s1 @ report e\<rparr>)"

text \<open>
  Modelled from the spec: the same hook, around \<^verbatim>\<open>processCarImageWithAI\<close>, whose
  \<^verbatim>\<open>data\<close> and \<^verbatim>\<open>error\<close> the component reads as \<^verbatim>\<open>processImageResult\<close> and
  \<^verbatim>\<open>processImageError\<close>.
\<close>

definition processImageFn ::
  "(js_error \<Rightarrow> event list) \<Rightarrow> car_details response outcome \<Rightarrow> js_file
     \<Rightarrow> form_state \<Rightarrow> form_state" where
  "processImageFn report out img s =
     (let s1 = toast (ProcessCarImageWithAI img) s
      in case out of
           Resolved r \<Rightarrow> s1\<lparr>processImageResult := Some r, processImageError := None\<rparr>
         | Rejected e \<Rightarrow> s1\<lparr>processImageError := Some e, events := events s1 @ report e\<rparr>)"

text \<open>A hook that reports the message of the error, once, as a notification.\<close>

definition reportMessage :: "js_error \<Rightarrow> event list" where
  "reportMessage e = [ToastError (message e)]"

subsection \<open>Effects\<close>

text \<open>
  The three \<^verbatim>\<open>useEffect\<close> bodies. React runs an effect after a render in which one
  of its dependencies is a new value; the handlers below run them at those points.
\<close>

definition processImageError_effect :: "form_state \<Rightarrow> form_state" where
  "processImageError_effect s =
     (case processImageError s of
        None \<Rightarrow> s
      | Some e \<Rightarrow>
          toast (ToastError (if message e = [] then ''Failed to process car image''
                             else message e)) s)"

definition processImageResult_effect :: "form_state \<Rightarrow> form_state" where
  "processImageResult_effect s =
     (case processImageResult s of
        None \<Rightarrow> s
      | Some r \<Rightarrow>
          (if success r then
             (case data r of
                None \<Rightarrow> s
              | Some carDetails \<Rightarrow>
                  (let s1 = s\<lparr>draft := (draft s)
                              \<lparr>make_field := ai_make carDetails,
                               model := ai_model carDetails,
                               year := toString (ai_year carDetails),
                               color := ai_color carDetails,
                               bodyType := ai_bodyType carDetails,
                               fuelType := ai_fuelType carDetails,
                               price := ai_price carDetails,
                               mileage := ai_mileage carDetails,
                               transmission := ai_transmission carDetails,
                               description := ai_description carDetails\<rparr>\<rparr>;
                       s2 = toast (ToastSuccess ''Successfully extracted car details''
                              (Some (''Detected '' @ toString (ai_year carDetails) @ '' ''
                                 @ ai_make carDetails @ '' '' @ ai_model carDetails
                                 @ '' with ''
                                 @ toString (Math_round (ai_confidence carDetails * 100))
                                 @ ''% confidence''))) s1
                   in s2\<lparr>activeTab := ''manual''\<rparr>))
           else s))"

definition addCarResult_effect :: "form_state \<Rightarrow> form_state" where
  "addCarResult_effect s =
     (case addCarResult s of
        None \<Rightarrow> s
      | Some r \<Rightarrow>
          (if success r then
             toast (RouterPush ''/admin/cars'')
               (toast (ToastSuccess ''Car added successfully'' None) s)
           else s))"

subsection \<open>Handlers\<close>

text \<open>
  \<^verbatim>\<open>processWithAI\<close>: the call through the hook, then the effects of the render that
  follows. A response is a new \<^verbatim>\<open>processImageResult\<close>, an error a new
  \<^verbatim>\<open>processImageError\<close>.
\<close>

definition processWithAI ::
  "(js_error \<Rightarrow> event list) \<Rightarrow> car_details response outcome \<Rightarrow> form_state \<Rightarrow> form_state" where
  "processWithAI report out s =
     (case uploadedAiImage s of
        None \<Rightarrow> toast (ToastError ''Please upload an image first'') s
      | Some img \<Rightarrow>
          (let s1 = processImageFn report out img s
           in case out of
                Resolved r \<Rightarrow> processImageResult_effect (processImageError_effect s1)
              | Rejected e \<Rightarrow> processImageError_effect s1))"

text \<open>
  \<^verbatim>\<open>onSubmit\<close>, which the form library calls with the validated values, and the
  effect on \<^verbatim>\<open>addCarResult\<close> after a response.
\<close>

definition carData_of :: "car_draft \<Rightarrow> car_data" where
  "carData_of d =
     \<lparr>values_of = d,
      year_number = toNumber (parseInt (year d)),
      mileage_number = toNumber (parseInt (mileage d)),
      seats_number = (if seats d \<noteq> [] then Some (toNumber (parseInt (seats d))) else None)\<rparr>"

definition onSubmit ::
  "(js_error \<Rightarrow> event list) \<Rightarrow> unit response outcome \<Rightarrow> car_draft
     \<Rightarrow> form_state \<Rightarrow> form_state" where
  "onSubmit report out d s =
     (if length (uploadedImages s) = 0 then
        s\<lparr>imageError := ''Please upload at least one image''\<rparr>
      else
        (let carData = carData_of d;
             s1 = addCarFn report out (carData, uploadedImages s) s
         in case out of
              Resolved r \<Rightarrow> addCarResult_effect s1
            | Rejected e \<Rightarrow> s1))"

text \<open>
  \<^verbatim>\<open>onMultiImagesDrop\<close>. The filter reports each file over the limit as it passes it.
  With no file left the handler returns; otherwise one reader is started for each file,
  and the readers share the list \<^verbatim>\<open>newImages\<close> of this call.
\<close>

definition maxFileSize :: nat where
  "maxFileSize = 5 * 1024 * 1024"

fun filterValid :: "js_file list \<Rightarrow> form_state \<Rightarrow> js_file list \<times> form_state" where
  "filterValid [] s = ([], s)"
| "filterValid (f # fs) s =
     (if file_size f > maxFileSize then
        filterValid fs
          (toast (ToastError (file_name f @ '' exceeds 5MB limit and will be skipped'')) s)
      else
        (let (validFiles, s') = filterValid fs s in (f # validFiles, s')))"

record batch =
  validFiles :: "js_file list"
  newImages :: "string list"

definition onMultiImagesDrop :: "js_file list \<Rightarrow> form_state \<Rightarrow> batch option \<times> form_state" where
  "onMultiImagesDrop acceptedFiles s =
     (let (valid, s1) = filterValid acceptedFiles s
      in if length valid = 0 then (None, s1)
         else (Some \<lparr>validFiles = valid, newImages = []\<rparr>, s1))"

text \<open>The \<^verbatim>\<open>onload\<close> of one reader of a batch, called with the data string it read.\<close>

definition reader_onload :: "string \<Rightarrow> batch \<times> form_state \<Rightarrow> batch \<times> form_state" where
  "reader_onload result bs =
     (let b = (fst bs)\<lparr>newImages := newImages (fst bs) @ [result]\<rparr>;
          s = snd bs
      in if length (newImages b) = length (validFiles b) then
           (b, toast (ToastSuccess (''Uploaded '' @ toString (int (length (validFiles b)))
                                    @ '' images successfully'') None)
                 (s\<lparr>uploadedImages := uploadedImages s @ newImages b, imageError := []\<rparr>))
         else (b, s))"

text \<open>
  A drop followed by the \<^verbatim>\<open>onload\<close> events of its readers, \<open>results\<close> being the data
  strings in the order in which the reads complete.
\<close>

definition dropAndLoad :: "js_file list \<Rightarrow> string list \<Rightarrow> form_state \<Rightarrow> form_state" where
  "dropAndLoad acceptedFiles results s =
     (case onMultiImagesDrop acceptedFiles s of
        (None, s1) \<Rightarrow> s1
      | (Some b, s1) \<Rightarrow> snd (fold reader_onload results (b, s1)))"

text \<open>
  \<^verbatim>\<open>onAiImageDrop\<close>, which starts one reader (the file returned), that reader's
  \<^verbatim>\<open>onload\<close>, and the click handler of the button on the preview.
\<close>

definition onAiImageDrop :: "js_file list \<Rightarrow> form_state \<Rightarrow> js_file option \<times> form_state" where
  "onAiImageDrop acceptedFiles s =
     (case acceptedFiles of
        [] \<Rightarrow> (None, s)
      | f # _ \<Rightarrow>
          (if file_size f > maxFileSize then
             (None, toast (ToastError ''Image exceeds 5MB limit'') s)
           else
             (Some f, toast (ToastSuccess ''Image uploaded for AI processing'' None)
                        (s\<lparr>uploadedAiImage := Some f\<rparr>))))"

definition aiReader_onload :: "string \<Rightarrow> form_state \<Rightarrow> form_state" where
  "aiReader_onload result s =
     s\<lparr>imagePreview := Some result, uploadedImages := uploadedImages s @ [result]\<rparr>"

definition aiPreviewRemove_onClick :: "form_state \<Rightarrow> form_state" where
  "aiPreviewRemove_onClick s =
     s\<lparr>imagePreview := None,
       uploadedAiImage := None,
       uploadedImages := filter (\<lambda>img. Some img \<noteq> imagePreview s) (uploadedImages s)\<rparr>"

text \<open>
  \<^verbatim>\<open>removeImage\<close>. The length is a number, so \<^verbatim>\<open>length - 1\<close> of the empty list is
  \<open>- 1\<close>, not \<open>0\<close>.
\<close>

definition removeImage :: "nat \<Rightarrow> form_state \<Rightarrow> form_state" where
  "removeImage indexToRemove s =
     s\<lparr>uploadedImages :=
         map snd (filter (\<lambda>(index, _). index \<noteq> indexToRemove)
                    (enumerate 0 (uploadedImages s))),
       imageError :=
         (if int (length (uploadedImages s)) - 1 = 0 then ''Please upload at least one image''
          else imageError s)\<rparr>"

subsection \<open>Counting notifications, and sample values\<close>

fun isToastError :: "event \<Rightarrow> bool" where
  "isToastError (ToastError _) = True"
| "isToastError _ = False"

fun isToastSuccess :: "event \<Rightarrow> bool" where
  "isToastSuccess (ToastSuccess _ _) = True"
| "isToastSuccess _ = False"

definition errorsSurfaced :: "event list \<Rightarrow> nat" where
  "errorsSurfaced evs = length (filter isToastError evs)"

definition oversize :: "js_file \<Rightarrow> bool" where
  "oversize f \<longleftrightarrow> file_size f > maxFileSize"

definition oversizeWarning :: "js_file \<Rightarrow> event" where
  "oversizeWarning f = ToastError (file_name f @ '' exceeds 5MB limit and will be skipped'')"

text \<open>A draft as the placeholders of the form suggest it, and three files.\<close>

definition sampleDraft :: car_draft where
  "sampleDraft =
     \<lparr>make_field = ''Toyota'', model = ''Camry'', year = ''2022'', price = ''25000'',
      mileage = ''15000'', color = ''Red'', fuelType = ''Petrol'',
      transmission = ''Automatic'', bodyType = ''Sedan'', seats = ''5'',
      description = ''One owner, full service history'', status = ''AVAILABLE'',
      featured = False\<rparr>"

definition sampleDetails :: car_details where
  "sampleDetails =
     \<lparr>ai_make = ''Honda'', ai_model = ''Civic'', ai_year = 2019, ai_color = ''Blue'',
      ai_bodyType = ''Hatchback'', ai_fuelType = ''Petrol'', ai_price = ''18000'',
      ai_mileage = ''42000'', ai_transmission = ''Manual'',
      ai_description = ''Blue hatchback in good condition'', ai_confidence = 9 / 10\<rparr>"

definition frontJpg :: js_file where
  "frontJpg = \<lparr>file_name = ''front.jpg'', file_size = 204800, file_result = ''data:front''\<rparr>"

definition sideJpg :: js_file where
  "sideJpg = \<lparr>file_name = ''side.jpg'', file_size = 5242880, file_result = ''data:side''\<rparr>"

definition hugePng :: js_file where
  "hugePng = \<lparr>file_name = ''huge.png'', file_size = 5242881, file_result = ''data:huge''\<rparr>"

definition failedResponse :: "unit response" where
  "failedResponse = \<lparr>success = False, data = None\<rparr>"

section \<open>Properties\<close>

subsection \<open>Decimal numerals and \<^verbatim>\<open>parseInt\<close>\<close>

lemma digits_small: "n < 10 \<Longrightarrow> digits n = [digitChar n]"
  by (subst digits.simps) simp

lemma digits_big: "\<not> n < 10 \<Longrightarrow> digits n = digits (n div 10) @ [digitChar (n mod 10)]"
  by (subst digits.simps) simp

lemma digitValue_digitChar: "n < 10 \<Longrightarrow> digitValue (digitChar n) = Some n"
  by (simp add: digitValue_def digitChar_def)

lemma isDecimalDigit_digitChar: "n < 10 \<Longrightarrow> isDecimalDigit (digitChar n)"
  by (simp add: isDecimalDigit_def digitChar_def)

lemma digits_not_Nil: "digits n \<noteq> []"
  by (cases "n < 10") (simp_all add: digits_small digits_big)

lemma digits_all_decimal: "c \<in> set (digits n) \<Longrightarrow> isDecimalDigit c"
proof (induction n rule: digits.induct)
  case (1 n)
  show ?case
  proof (cases "n < 10")
    case True
    with "1.prems" show ?thesis by (simp add: digits_small isDecimalDigit_digitChar)
  next
    case False
    with "1.prems" have "c \<in> set (digits (n div 10)) \<or> c = digitChar (n mod 10)"
      by (auto simp: digits_big)
    then show ?thesis using "1.IH" False by (auto simp: isDecimalDigit_digitChar)
  qed
qed

lemma isDecimalDigit_radix_iff: "isRadixDigit 10 c = isDecimalDigit c"
  by (auto simp: isDecimalDigit_def isRadixDigit_def digitValue_def Let_def)

lemma mathInt_snoc: "mathInt R (Z @ [c]) = mathInt R Z * R + (case digitValue c of None \<Rightarrow> 0 | Some v \<Rightarrow> v)"
  by (simp add: mathInt_def)

lemma mathInt_digits: "mathInt 10 (digits n) = n"
proof (induction n rule: digits.induct)
  case (1 n)
  show ?case
  proof (cases "n < 10")
    case True
    then show ?thesis by (simp add: digits_small mathInt_def digitValue_digitChar)
  next
    case False
    then have "mathInt 10 (digits n) = mathInt 10 (digits (n div 10)) * 10 + n mod 10"
      by (simp add: digits_big mathInt_snoc digitValue_digitChar)
    with "1.IH" False show ?thesis by simp
  qed
qed


lemma decimal_not_space: "isDecimalDigit c \<Longrightarrow> \<not> isWhiteSpace c"
  by (auto simp: isDecimalDigit_def isWhiteSpace_def)

lemma decimal_not_sign: "isDecimalDigit c \<Longrightarrow> c \<noteq> CHR ''-'' \<and> c \<noteq> CHR ''+'' \<and> c \<noteq> CHR ''x'' \<and> c \<noteq> CHR ''X''"
  by (auto simp: isDecimalDigit_def)

lemma parseInt_decimal_prefix:
  assumes ne: "ds \<noteq> []" and dig: "\<forall>c \<in> set ds. isDecimalDigit c"
    and rest: "rest = [] \<or> \<not> isDecimalDigit (hd rest)"
    and nohex: "\<not> (length ds = 1 \<and> rest \<noteq> [] \<and> hd ds = CHR ''0'' \<and> (hd rest = CHR ''x'' \<or> hd rest = CHR ''X''))"
  shows "parseInt (ds @ rest) = Some (int (mathInt 10 ds))"
proof -
  obtain d ds' where ds: "ds = d # ds'" using ne by (cases ds) auto
  have d: "isDecimalDigit d" using dig ds by simp
  have S: "dropWhile isWhiteSpace (ds @ rest) = ds @ rest"
    using d ds by (simp add: decimal_not_space)
  have hd: "hd (ds @ rest) = d" using ds by simp
  have nohex': "take 2 (ds @ rest) \<noteq> ''0x'' \<and> take 2 (ds @ rest) \<noteq> ''0X''"
  proof (cases ds')
    case Nil
    then show ?thesis using ds nohex by (cases rest) auto
  next
    case (Cons e es)
    then have "isDecimalDigit e" using dig ds by simp
    then show ?thesis using ds Cons decimal_not_sign[of e] by auto
  qed
  have Z: "takeWhile (isRadixDigit 10) (ds @ rest) = ds"
  proof (cases rest)
    case Nil
    then show ?thesis using dig by (simp add: isDecimalDigit_radix_iff)
  next
    case (Cons r rs)
    then have "\<not> isRadixDigit 10 r" using rest by (simp add: isDecimalDigit_radix_iff)
    then show ?thesis using dig Cons by (simp add: isDecimalDigit_radix_iff takeWhile_tail)
  qed
  show ?thesis
    unfolding parseInt_def Let_def S
    using ne d hd nohex' Z decimal_not_sign[of d] by simp
qed

lemma parseInt_digits: "parseInt (digits n) = Some (int n)"
  using parseInt_decimal_prefix[of "digits n" "[]"]
  by (simp add: digits_not_Nil digits_all_decimal mathInt_digits)

lemma parseInt_minus_digits: "parseInt (CHR ''-'' # digits n) = Some (- int n)"
proof -
  obtain d ds' where ds: "digits n = d # ds'" using digits_not_Nil[of n] by (cases "digits n") auto
  have dig: "\<forall>c \<in> set (digits n). isDecimalDigit c" by (simp add: digits_all_decimal)
  have d: "isDecimalDigit d" using dig ds by simp
  have nohex': "take 2 (digits n) \<noteq> ''0x'' \<and> take 2 (digits n) \<noteq> ''0X''"
  proof (cases ds')
    case Nil
    then show ?thesis using ds by auto
  next
    case (Cons e es)
    then have "isDecimalDigit e" using dig ds by simp
    then show ?thesis using ds Cons decimal_not_sign[of e] by auto
  qed
  have Z: "takeWhile (isRadixDigit 10) (digits n) = digits n"
    using dig by (simp add: isDecimalDigit_radix_iff)
  have sp: "\<not> isWhiteSpace CHR ''-''" by (simp add: isWhiteSpace_def)
  show ?thesis
    unfolding parseInt_def Let_def
    using sp nohex' digits_not_Nil[of n] by (simp add: Z mathInt_digits)
qed

lemma parseInt_toString: "parseInt (toString y) = Some y"
  by (simp add: toString_def parseInt_digits parseInt_minus_digits)

lemma toString_not_digits_then_other:
  assumes "ds \<noteq> []" and "\<forall>c \<in> set ds. isDecimalDigit c" and "rest \<noteq> []"
    and "\<not> isDecimalDigit (hd rest)"
  shows "toString y \<noteq> ds @ rest"
proof
  assume eq: "toString y = ds @ rest"
  obtain d ds' where ds: "ds = d # ds'" using assms(1) by (cases ds) auto
  have "isDecimalDigit d" using assms(2) ds by simp
  then have "d \<noteq> CHR ''-''" using decimal_not_sign by blast
  with eq ds have "\<not> y < 0" by (auto simp: toString_def)
  with eq have "digits (nat y) = ds @ rest" by (simp add: toString_def)
  moreover have "hd rest \<in> set (ds @ rest)" using assms(3) by simp
  ultimately have "isDecimalDigit (hd rest)" using digits_all_decimal by metis
  with assms(4) show False by simp
qed

subsection \<open>The resolver\<close>

lemma zodResolver_Nil: "zodResolver [] d = []"
  by (simp add: zodResolver_def List.map_filter_simps)

lemma zodResolver_Cons:
  "zodResolver ((key, check) # schema) d =
     (case check d of None \<Rightarrow> zodResolver schema d
      | Some m \<Rightarrow> (key, m) # zodResolver schema d)"
  by (simp add: zodResolver_def List.map_filter_simps split: option.splits)

lemma zodResolver_keys: "fst ` set (zodResolver schema d) \<subseteq> fst ` set schema"
proof (induction schema)
  case Nil
  show ?case by (simp add: zodResolver_Nil)
next
  case (Cons a schema)
  obtain key check where a: "a = (key, check)" by (cases a)
  show ?case using Cons by (auto simp: a zodResolver_Cons split: option.splits)
qed

lemma zodResolver_lookup:
  "distinct (map fst schema) \<Longrightarrow>
     map_of (zodResolver schema d) k = Option.bind (map_of schema k) (\<lambda>check. check d)"
proof (induction schema)
  case Nil
  show ?case by (simp add: zodResolver_Nil)
next
  case (Cons a schema)
  obtain key check where a: "a = (key, check)" by (cases a)
  have notin: "key \<notin> fst ` set (zodResolver schema d)"
    using Cons.prems zodResolver_keys[of schema d] by (auto simp: a)
  then have none: "map_of (zodResolver schema d) key = None"
    by (simp add: map_of_eq_None_iff)
  show ?case using Cons none by (simp add: a zodResolver_Cons split: option.splits)
qed

lemma carFormSchema_distinct: "distinct (map fst (carFormSchema cy))"
  by (simp add: carFormSchema_def)

subsection \<open>Batches of dropped files\<close>

lemma filterValid_eq:
  "filterValid fs s =
     (filter (\<lambda>f. \<not> oversize f) fs,
      s\<lparr>events := events s @ map oversizeWarning (filter oversize fs)\<rparr>)"
  by (induction fs arbitrary: s) (simp_all add: oversize_def oversizeWarning_def toast_def)

lemma fold_onload_incomplete:
  "length (newImages b) + length rs < length (validFiles b) \<Longrightarrow>
     fold reader_onload rs (b, s) = (b\<lparr>newImages := newImages b @ rs\<rparr>, s)"
  by (induction rs arbitrary: b) (simp_all add: reader_onload_def)

lemma fold_onload_complete:
  assumes "rs \<noteq> []" and "length (newImages b) + length rs = length (validFiles b)"
  shows "snd (fold reader_onload rs (b, s)) =
           s\<lparr>uploadedImages := uploadedImages s @ newImages b @ rs,
             imageError := [],
             events := events s @
               [ToastSuccess (''Uploaded '' @ toString (int (length (validFiles b)))
                              @ '' images successfully'') None]\<rparr>"
proof -
  obtain qs r where rs: "rs = qs @ [r]"
    using assms(1) by (metis append_butlast_last_id)
  have "length (newImages b) + length qs < length (validFiles b)"
    using assms(2) rs by simp
  then have "fold reader_onload qs (b, s) = (b\<lparr>newImages := newImages b @ qs\<rparr>, s)"
    by (rule fold_onload_incomplete)
  then show ?thesis
    using assms(2) by (simp add: rs reader_onload_def toast_def)
qed

subsection \<open>Removing by index\<close>

lemma filter_enumerate_above:
  "i < n \<Longrightarrow> map snd (filter (\<lambda>(index, _). index \<noteq> i) (enumerate n xs)) = xs"
  by (induction xs arbitrary: n) simp_all

lemma filter_enumerate_index:
  "n \<le> i \<Longrightarrow>
     map snd (filter (\<lambda>(index, _). index \<noteq> i) (enumerate n xs))
       = take (i - n) xs @ drop (Suc (i - n)) xs"
proof (induction xs arbitrary: n)
  case Nil
  show ?case by simp
next
  case (Cons x xs)
  show ?case
  proof (cases "i = n")
    case True
    then show ?thesis by (simp add: filter_enumerate_above)
  next
    case False
    with Cons.prems have le: "Suc n \<le> i" by simp
    then have step: "i - n = Suc (i - Suc n)" by simp
    from Cons.IH[OF le] False show ?thesis
      by (simp add: step)
  qed
qed

lemma dropAndLoad_eq:
  assumes "length results = length (filter (\<lambda>f. \<not> oversize f) fs)"
  shows "dropAndLoad fs results s =
           (if results = [] then
              s\<lparr>events := events s @ map oversizeWarning (filter oversize fs)\<rparr>
            else
              s\<lparr>uploadedImages := uploadedImages s @ results,
                imageError := [],
                events := events s @ map oversizeWarning (filter oversize fs) @
                  [ToastSuccess (''Uploaded '' @ toString (int (length results))
                                 @ '' images successfully'') None]\<rparr>)"
proof (cases "results = []")
  case True
  with assms show ?thesis
    by (simp add: dropAndLoad_def onMultiImagesDrop_def filterValid_eq)
next
  case False
  let ?b = "\<lparr>validFiles = filter (\<lambda>f. \<not> oversize f) fs, newImages = []\<rparr>"
  let ?s1 = "s\<lparr>events := events s @ map oversizeWarning (filter oversize fs)\<rparr>"
  have ne: "filter (\<lambda>f. \<not> oversize f) fs \<noteq> []" using False assms by auto
  have drop: "dropAndLoad fs results s = snd (fold reader_onload results (?b, ?s1))"
    using ne by (simp add: dropAndLoad_def onMultiImagesDrop_def filterValid_eq)
  have "length (newImages ?b) + length results = length (validFiles ?b)"
    using assms by simp
  from fold_onload_complete [OF False this, of ?s1] drop False assms
  show ?thesis by simp
qed

lemma length_valid_files:
  "length (filter (\<lambda>f. \<not> oversize f) fs) = length fs - length (filter oversize fs)"
  using sum_length_filter_compl [of oversize fs] by simp

lemma errorsSurfaced_append: "errorsSurfaced (xs @ ys) = errorsSurfaced xs + errorsSurfaced ys"
  by (simp add: errorsSurfaced_def)

lemma errorsSurfaced_warnings: "errorsSurfaced (map oversizeWarning fs) = length fs"
  by (induction fs) (simp_all add: errorsSurfaced_def oversizeWarning_def)

lemma no_success_in_warnings: "filter isToastSuccess (map oversizeWarning fs) = []"
  by (induction fs) (simp_all add: oversizeWarning_def)

section \<open>The claims\<close>

text \<open>
  C1. Whenever \<^verbatim>\<open>onSubmit\<close> runs while the list of uploaded images is empty, the image
  error becomes the message asking for at least one image, the create action is not
  called (no event is added, however the call would have ended) and the draft is as it
  was: the state changes in the image error only.
\<close>

theorem onSubmit_without_images:
  assumes "uploadedImages s = []"
  shows "onSubmit report out d s = s\<lparr>imageError := ''Please upload at least one image''\<rparr>
         \<and> imageError (onSubmit report out d s) = ''Please upload at least one image''
         \<and> events (onSubmit report out d s) = events s
         \<and> draft (onSubmit report out d s) = draft s"
  using assms by (simp add: onSubmit_def)

theorem onSubmit_without_images_witness:
  "uploadedImages initialState = []
   \<and> imageError (onSubmit reportMessage (Resolved failedResponse) sampleDraft initialState)
       = ''Please upload at least one image''
   \<and> events (onSubmit reportMessage (Resolved failedResponse) sampleDraft initialState) = []
   \<and> draft (onSubmit reportMessage (Resolved failedResponse) sampleDraft initialState)
       = defaultValues"
proof -
  have h: "uploadedImages initialState = []" by (simp add: initialState_def)
  show ?thesis
    using h onSubmit_without_images [OF h, of reportMessage "Resolved failedResponse" sampleDraft]
    by (simp add: initialState_def)
qed

text \<open>
  C2. For every integer \<open>y\<close> and every current year, the check of the \<^verbatim>\<open>year\<close> key
  accepts the decimal string of \<open>y\<close> exactly when \<open>1900 \<le> y \<le> currentYear + 1\<close>, and
  otherwise the resolver's entry for \<^verbatim>\<open>year\<close> is the message \<^verbatim>\<open>Valid year required\<close>.
\<close>

theorem year_accepted_iff_in_range:
  "year_refine currentYear (toString y) = (1900 \<le> y \<and> y \<le> currentYear + 1)
   \<and> map_of (zodResolver (carFormSchema currentYear) (d\<lparr>year := toString y\<rparr>)) ''year''
       = (if 1900 \<le> y \<and> y \<le> currentYear + 1 then None else Some ''Valid year required'')"
proof -
  have accept: "year_refine currentYear (toString y) = (1900 \<le> y \<and> y \<le> currentYear + 1)"
    by (simp add: year_refine_def parseInt_toString)
  have key: "map_of (carFormSchema currentYear) ''year''
               = Some (\<lambda>d. string_refine (year_refine currentYear) ''Valid year required'' (year d))"
    by (simp add: carFormSchema_def)
  have "map_of (zodResolver (carFormSchema currentYear) (d\<lparr>year := toString y\<rparr>)) ''year''
          = string_refine (year_refine currentYear) ''Valid year required'' (toString y)"
    by (simp add: zodResolver_lookup carFormSchema_distinct key)
  with accept show ?thesis by (simp add: string_refine_def)
qed

theorem year_accepted_iff_in_range_witness:
  "year_refine 2025 (toString 2026) \<and> \<not> year_refine 2025 (toString 2027)
   \<and> \<not> year_refine 2025 (toString 1899)
   \<and> map_of (zodResolver (carFormSchema 2025) (sampleDraft\<lparr>year := toString 2027\<rparr>)) ''year''
       = Some ''Valid year required''"
  using year_accepted_iff_in_range [of 2025 2026 sampleDraft]
    year_accepted_iff_in_range [of 2025 2027 sampleDraft]
    year_accepted_iff_in_range [of 2025 1899 sampleDraft]
  by simp

text \<open>
  C3. Take a batch of \<open>N\<close> dropped files of which \<open>k\<close> are larger than 5 MiB, and let
  every reader of the batch complete, in any order (\<open>results\<close> lists the data strings
  as they arrive). Then the shared image list is the old list followed by \<open>results\<close>,
  which are the \<open>N - k\<close> payloads of the files within the limit; the events added are one
  warning for each file over the limit, in the order of the files, followed by a single
  success notification unless no file was within the limit; so exactly \<open>k\<close> warnings are
  added. When \<open>k = N\<close> the image list is unchanged and no success notification is added.
  A batch holding the same files in another order, completing in any order, appends the
  same payloads and adds the same events, up to their order.
\<close>

theorem onMultiImagesDrop_batch:
  assumes "mset results = mset (map file_result (filter (\<lambda>f. \<not> oversize f) acceptedFiles))"
  shows "uploadedImages (dropAndLoad acceptedFiles results s) = uploadedImages s @ results
         \<and> length results = length acceptedFiles - length (filter oversize acceptedFiles)
         \<and> events (dropAndLoad acceptedFiles results s)
             = events s @ map oversizeWarning (filter oversize acceptedFiles)
                 @ (if results = [] then []
                    else [ToastSuccess (''Uploaded '' @ toString (int (length results))
                                        @ '' images successfully'') None])
         \<and> errorsSurfaced (events (dropAndLoad acceptedFiles results s))
             = errorsSurfaced (events s) + length (filter oversize acceptedFiles)
         \<and> (length (filter oversize acceptedFiles) = length acceptedFiles
              \<longrightarrow> uploadedImages (dropAndLoad acceptedFiles results s) = uploadedImages s
                  \<and> filter isToastSuccess (events (dropAndLoad acceptedFiles results s))
                      = filter isToastSuccess (events s))
         \<and> (\<forall>files' results'.
               mset files' = mset acceptedFiles
               \<and> mset results' = mset (map file_result (filter (\<lambda>f. \<not> oversize f) files'))
               \<longrightarrow> mset (uploadedImages (dropAndLoad files' results' s))
                     = mset (uploadedImages (dropAndLoad acceptedFiles results s))
                   \<and> mset (events (dropAndLoad files' results' s))
                     = mset (events (dropAndLoad acceptedFiles results s)))"
proof -
  let ?valid = "\<lambda>fs. filter (\<lambda>f. \<not> oversize f) fs"
  have len: "length results = length (?valid acceptedFiles)"
    using assms by (metis length_map size_mset)
  note run = dropAndLoad_eq [OF len, of s]
  have imgs: "uploadedImages (dropAndLoad acceptedFiles results s) = uploadedImages s @ results"
    by (simp add: run)
  have count: "length results = length acceptedFiles - length (filter oversize acceptedFiles)"
    by (simp add: len length_valid_files)
  have evs: "events (dropAndLoad acceptedFiles results s)
               = events s @ map oversizeWarning (filter oversize acceptedFiles)
                   @ (if results = [] then []
                      else [ToastSuccess (''Uploaded '' @ toString (int (length results))
                                          @ '' images successfully'') None])"
    by (simp add: run)
  have errs: "errorsSurfaced (events (dropAndLoad acceptedFiles results s))
                = errorsSurfaced (events s) + length (filter oversize acceptedFiles)"
    by (simp add: evs errorsSurfaced_append errorsSurfaced_warnings)
       (simp add: errorsSurfaced_def)
  have all_over: "length (filter oversize acceptedFiles) = length acceptedFiles
              \<longrightarrow> uploadedImages (dropAndLoad acceptedFiles results s) = uploadedImages s
                  \<and> filter isToastSuccess (events (dropAndLoad acceptedFiles results s))
                      = filter isToastSuccess (events s)"
  proof
    assume "length (filter oversize acceptedFiles) = length acceptedFiles"
    with count have "results = []" by simp
    with imgs evs
    show "uploadedImages (dropAndLoad acceptedFiles results s) = uploadedImages s
            \<and> filter isToastSuccess (events (dropAndLoad acceptedFiles results s))
                = filter isToastSuccess (events s)"
      by (simp add: no_success_in_warnings)
  qed
  have order: "\<forall>files' results'.
               mset files' = mset acceptedFiles
               \<and> mset results' = mset (map file_result (?valid files'))
               \<longrightarrow> mset (uploadedImages (dropAndLoad files' results' s))
                     = mset (uploadedImages (dropAndLoad acceptedFiles results s))
                   \<and> mset (events (dropAndLoad files' results' s))
                     = mset (events (dropAndLoad acceptedFiles results s))"
  proof (intro allI impI)
    fix files' results'
    assume a: "mset files' = mset acceptedFiles
               \<and> mset results' = mset (map file_result (?valid files'))"
    have valid: "mset (?valid files') = mset (?valid acceptedFiles)"
      using a by (metis mset_filter)
    have over: "mset (filter oversize files') = mset (filter oversize acceptedFiles)"
      using a by (metis mset_filter)
    have res: "mset results' = mset results"
      using a valid assms by (metis mset_map)
    have len': "length results' = length (?valid files')"
      using a by (metis length_map size_mset)
    have lenres: "length results' = length results"
      using res by (metis size_mset)
    have empty: "(results' = []) = (results = [])"
      using lenres by auto
    have warn: "mset (map oversizeWarning (filter oversize files'))
                  = mset (map oversizeWarning (filter oversize acceptedFiles))"
      using over by (metis mset_map)
    note run' = dropAndLoad_eq [OF len', of s]
    show "mset (uploadedImages (dropAndLoad files' results' s))
            = mset (uploadedImages (dropAndLoad acceptedFiles results s))
          \<and> mset (events (dropAndLoad files' results' s))
            = mset (events (dropAndLoad acceptedFiles results s))"
      using res warn empty lenres by (simp add: run run')
  qed
  from imgs count evs errs all_over order show ?thesis by blast
qed

theorem onMultiImagesDrop_batch_witness:
  "mset [''data:side'', ''data:front'']
     = mset (map file_result (filter (\<lambda>f. \<not> oversize f) [frontJpg, hugePng, sideJpg]))
   \<and> uploadedImages (dropAndLoad [frontJpg, hugePng, sideJpg] [''data:side'', ''data:front'']
        (initialState\<lparr>uploadedImages := [''data:old'']\<rparr>))
       = [''data:old'', ''data:side'', ''data:front'']
   \<and> events (dropAndLoad [frontJpg, hugePng, sideJpg] [''data:side'', ''data:front'']
        (initialState\<lparr>uploadedImages := [''data:old'']\<rparr>))
       = [ToastError ''huge.png exceeds 5MB limit and will be skipped'',
          ToastSuccess ''Uploaded 2 images successfully'' None]"
proof -
  have h: "mset [''data:side'', ''data:front'']
     = mset (map file_result (filter (\<lambda>f. \<not> oversize f) [frontJpg, hugePng, sideJpg]))"
    by (simp add: oversize_def maxFileSize_def frontJpg_def hugePng_def sideJpg_def)
  have two: "toString 2 = ''2''"
    by code_simp
  show ?thesis
    using h onMultiImagesDrop_batch [OF h, of "initialState\<lparr>uploadedImages := [''data:old'']\<rparr>"]
    by (simp add: two initialState_def oversize_def oversizeWarning_def maxFileSize_def
          frontJpg_def hugePng_def sideJpg_def)
qed

text \<open>
  C4. When the effect on \<^verbatim>\<open>processImageResult\<close> runs on a response with \<^verbatim>\<open>success\<close>
  and \<^verbatim>\<open>data\<close>, the draft afterwards is the old draft with make, model, color, body
  type, fuel type, price, mileage, transmission and description replaced by the
  response's values as they are, and year by the decimal string of the response's year.
  Seats, status and featured are as before, and so are the image list, the image error,
  the preview and the stored AI image. The active tab is \<^verbatim>\<open>manual\<close>. A response that
  differs in its confidence only gives the same draft, hence the same errors of the schema.
\<close>

theorem processImageResult_effect_writes_fields:
  assumes "processImageResult s = Some r" and "success r" and "data r = Some carDetails"
  shows "draft (processImageResult_effect s)
           = (draft s)\<lparr>make_field := ai_make carDetails,
                       model := ai_model carDetails,
                       year := toString (ai_year carDetails),
                       color := ai_color carDetails,
                       bodyType := ai_bodyType carDetails,
                       fuelType := ai_fuelType carDetails,
                       price := ai_price carDetails,
                       mileage := ai_mileage carDetails,
                       transmission := ai_transmission carDetails,
                       description := ai_description carDetails\<rparr>
         \<and> seats (draft (processImageResult_effect s)) = seats (draft s)
         \<and> status (draft (processImageResult_effect s)) = status (draft s)
         \<and> featured (draft (processImageResult_effect s)) = featured (draft s)
         \<and> activeTab (processImageResult_effect s) = ''manual''
         \<and> uploadedImages (processImageResult_effect s) = uploadedImages s
         \<and> imageError (processImageResult_effect s) = imageError s
         \<and> imagePreview (processImageResult_effect s) = imagePreview s
         \<and> uploadedAiImage (processImageResult_effect s) = uploadedAiImage s
         \<and> (\<forall>c. draft (processImageResult_effect
                   (s\<lparr>processImageResult :=
                        Some (r\<lparr>data := Some (carDetails\<lparr>ai_confidence := c\<rparr>)\<rparr>)\<rparr>))
                 = draft (processImageResult_effect s))
         \<and> (\<forall>c currentYear.
               zodResolver (carFormSchema currentYear)
                 (draft (processImageResult_effect
                   (s\<lparr>processImageResult :=
                        Some (r\<lparr>data := Some (carDetails\<lparr>ai_confidence := c\<rparr>)\<rparr>)\<rparr>)))
               = zodResolver (carFormSchema currentYear) (draft (processImageResult_effect s)))"
  using assms by (simp add: processImageResult_effect_def toast_def)

theorem processImageResult_effect_writes_fields_witness:
  "processImageResult
      (initialState\<lparr>activeTab := ''ai'', draft := sampleDraft,
         processImageResult := Some \<lparr>success = True, data = Some sampleDetails\<rparr>\<rparr>)
     = Some \<lparr>success = True, data = Some sampleDetails\<rparr>
   \<and> success \<lparr>success = True, data = Some sampleDetails\<rparr>
   \<and> data \<lparr>success = True, data = Some sampleDetails\<rparr> = Some sampleDetails
   \<and> draft (processImageResult_effect
        (initialState\<lparr>activeTab := ''ai'', draft := sampleDraft,
           processImageResult := Some \<lparr>success = True, data = Some sampleDetails\<rparr>\<rparr>))
       = \<lparr>make_field = ''Honda'', model = ''Civic'', year = toString 2019, price = ''18000'',
          mileage = ''42000'', color = ''Blue'', fuelType = ''Petrol'',
          transmission = ''Manual'', bodyType = ''Hatchback'', seats = ''5'',
          description = ''Blue hatchback in good condition'', status = ''AVAILABLE'',
          featured = False\<rparr>
   \<and> activeTab (processImageResult_effect
        (initialState\<lparr>activeTab := ''ai'', draft := sampleDraft,
           processImageResult := Some \<lparr>success = True, data = Some sampleDetails\<rparr>\<rparr>))
       = ''manual''"
proof -
  let ?r = "\<lparr>success = True, data = Some sampleDetails\<rparr>"
  let ?s = "initialState\<lparr>activeTab := ''ai'', draft := sampleDraft,
              processImageResult := Some ?r\<rparr>"
  have h1: "processImageResult ?s = Some ?r" by simp
  have h2: "success ?r" by simp
  have h3: "data ?r = Some sampleDetails" by simp
  show ?thesis
    using processImageResult_effect_writes_fields [OF h1 h2 h3]
    by (simp add: sampleDraft_def sampleDetails_def)
qed

text \<open>
  C5, as the code has it. Let \<^verbatim>\<open>onSubmit\<close> run with at least one image. When the create
  call throws, the component adds no notification of its own: the events added are the
  call followed by what the fetch hook reports (one error, for a hook that reports the
  message once), and nothing else of the state changes, so the draft and the image list
  are there for a retry. When the call returns a response
  whose \<^verbatim>\<open>success\<close> is false, nothing is surfaced: the only event is the call, and
  the state changes in the stored response only. When it returns a response with
  \<^verbatim>\<open>success\<close>, a success notification is shown and the router is sent to
  \<^verbatim>\<open>/admin/cars\<close>, the listing.
\<close>

theorem onSubmit_call_outcomes:
  assumes "uploadedImages s \<noteq> []"
  shows "onSubmit report (Rejected e) d s
           = s\<lparr>events := events s @ [AddCar (carData_of d) (uploadedImages s)] @ report e\<rparr>
         \<and> errorsSurfaced (events (onSubmit reportMessage (Rejected e) d s))
             = errorsSurfaced (events s) + 1
         \<and> (\<not> success r \<longrightarrow>
               onSubmit report (Resolved r) d s
                 = s\<lparr>addCarResult := Some r,
                     events := events s @ [AddCar (carData_of d) (uploadedImages s)]\<rparr>
               \<and> errorsSurfaced (events (onSubmit report (Resolved r) d s))
                   = errorsSurfaced (events s))
         \<and> (success r \<longrightarrow>
               onSubmit report (Resolved r) d s
                 = s\<lparr>addCarResult := Some r,
                     events := events s @ [AddCar (carData_of d) (uploadedImages s),
                                          ToastSuccess ''Car added successfully'' None,
                                          RouterPush ''/admin/cars'']\<rparr>)"
  using assms
  by (simp add: onSubmit_def addCarFn_def addCarResult_effect_def toast_def
        reportMessage_def errorsSurfaced_def)

theorem onSubmit_call_outcomes_witness:
  "uploadedImages (initialState\<lparr>uploadedImages := [''data:front''], draft := sampleDraft\<rparr>) \<noteq> []
   \<and> onSubmit reportMessage (Rejected (Error ''Error adding car'')) sampleDraft
        (initialState\<lparr>uploadedImages := [''data:front''], draft := sampleDraft\<rparr>)
       = initialState\<lparr>uploadedImages := [''data:front''], draft := sampleDraft,
           events := [AddCar (carData_of sampleDraft) [''data:front''],
                      ToastError ''Error adding car'']\<rparr>
   \<and> events (onSubmit reportMessage (Resolved \<lparr>success = True, data = None\<rparr>) sampleDraft
        (initialState\<lparr>uploadedImages := [''data:front''], draft := sampleDraft\<rparr>))
       = [AddCar (carData_of sampleDraft) [''data:front''],
          ToastSuccess ''Car added successfully'' None, RouterPush ''/admin/cars'']"
proof -
  let ?s = "initialState\<lparr>uploadedImages := [''data:front''], draft := sampleDraft\<rparr>"
  have h: "uploadedImages ?s \<noteq> []" by simp
  show ?thesis
    using h
      onSubmit_call_outcomes [OF h, of reportMessage "Error ''Error adding car''" sampleDraft
        "\<lparr>success = True, data = None\<rparr>"]
    by (simp add: initialState_def reportMessage_def)
qed

text \<open>
  C5 as stated fails where the create call returns a response whose \<^verbatim>\<open>success\<close> is
  false: with one image uploaded and a hook that reports thrown errors, the only event of
  the submission is the call itself, so the number of errors surfaced is not one.
\<close>

theorem onSubmit_failed_response_not_surfaced:
  "events (onSubmit reportMessage (Resolved failedResponse) sampleDraft
     (initialState\<lparr>uploadedImages := [''data:front''], draft := sampleDraft\<rparr>))
     = [AddCar (carData_of sampleDraft) [''data:front'']]
   \<and> errorsSurfaced (events (onSubmit reportMessage (Resolved failedResponse) sampleDraft
        (initialState\<lparr>uploadedImages := [''data:front''], draft := sampleDraft\<rparr>))) \<noteq> 1"
  by (simp add: onSubmit_def addCarFn_def addCarResult_effect_def toast_def initialState_def
        failedResponse_def errorsSurfaced_def)

text \<open>
  C6. For every image list and every index \<open>i\<close> within it, \<^verbatim>\<open>removeImage(i)\<close> leaves the
  elements before \<open>i\<close> followed by the elements after \<open>i\<close>: the list is one shorter, the
  elements below \<open>i\<close> stay where they were and each later element moves down by one. When
  the list had exactly one element, the image error is set to the message asking for at
  least one image.
\<close>

theorem removeImage_removes_index:
  assumes "i < length (uploadedImages s)"
  shows "uploadedImages (removeImage i s)
           = take i (uploadedImages s) @ drop (Suc i) (uploadedImages s)
         \<and> length (uploadedImages (removeImage i s)) = length (uploadedImages s) - 1
         \<and> (\<forall>j < i. uploadedImages (removeImage i s) ! j = uploadedImages s ! j)
         \<and> (\<forall>j. i \<le> j \<and> Suc j < length (uploadedImages s)
                \<longrightarrow> uploadedImages (removeImage i s) ! j = uploadedImages s ! Suc j)
         \<and> (length (uploadedImages s) = 1
                \<longrightarrow> imageError (removeImage i s) = ''Please upload at least one image'')"
proof -
  let ?xs = "uploadedImages s"
  have eq: "uploadedImages (removeImage i s) = take i ?xs @ drop (Suc i) ?xs"
    using filter_enumerate_index [of 0 i ?xs] by (simp add: removeImage_def)
  have len: "length (uploadedImages (removeImage i s)) = length ?xs - 1"
    using assms by (simp add: eq)
  have low: "\<forall>j < i. uploadedImages (removeImage i s) ! j = ?xs ! j"
    using assms by (simp add: eq nth_append)
  have high: "\<forall>j. i \<le> j \<and> Suc j < length ?xs
                \<longrightarrow> uploadedImages (removeImage i s) ! j = ?xs ! Suc j"
    using assms by (auto simp: eq nth_append)
  have err: "length ?xs = 1
               \<longrightarrow> imageError (removeImage i s) = ''Please upload at least one image''"
    by (simp add: removeImage_def)
  from eq len low high err show ?thesis by blast
qed

theorem removeImage_removes_index_witness:
  "(1::nat) < length (uploadedImages (initialState\<lparr>uploadedImages := [''a'', ''b'', ''c'']\<rparr>))
   \<and> uploadedImages (removeImage 1 (initialState\<lparr>uploadedImages := [''a'', ''b'', ''c'']\<rparr>))
       = [''a'', ''c'']
   \<and> (0::nat) < length (uploadedImages (initialState\<lparr>uploadedImages := [''a'']\<rparr>))
   \<and> uploadedImages (removeImage 0 (initialState\<lparr>uploadedImages := [''a'']\<rparr>)) = []
   \<and> imageError (removeImage 0 (initialState\<lparr>uploadedImages := [''a'']\<rparr>))
       = ''Please upload at least one image''"
proof -
  have h1: "(1::nat) < length (uploadedImages (initialState\<lparr>uploadedImages := [''a'', ''b'', ''c'']\<rparr>))"
    by simp
  have h0: "(0::nat) < length (uploadedImages (initialState\<lparr>uploadedImages := [''a'']\<rparr>))"
    by simp
  show ?thesis
    using h1 h0 removeImage_removes_index [OF h1] removeImage_removes_index [OF h0]
    by simp
qed

text \<open>
  C7. Take a draft in which one of the eight required fields (make, model, price,
  mileage, color, fuel type, transmission, body type) is empty, the other seven are not,
  the year passes its check, the description has at least ten characters and the status
  is one of the three. Then the errors of the schema are the one entry for that field,
  with the field's own message. And for no draft at all is there an entry for seats.
\<close>

theorem missing_required_field_only_error:
  assumes "(f, sel, msg) \<in> set requiredFields"
    and "\<forall>(g, selg, msgg) \<in> set requiredFields. (selg d = []) = (g = f)"
    and "year_refine currentYear (year d)"
    and "10 \<le> length (description d)"
    and "status d \<in> set carStatuses"
  shows "zodResolver (carFormSchema currentYear) d = [(f, msg)]
         \<and> (\<forall>cy d'. ''seats'' \<notin> fst ` set (zodResolver (carFormSchema cy) d'))"
proof -
  from assms(2) have empty:
    "(make_field d = []) = (''make'' = f)" "(model d = []) = (''model'' = f)"
    "(price d = []) = (''price'' = f)" "(mileage d = []) = (''mileage'' = f)"
    "(color d = []) = (''color'' = f)" "(fuelType d = []) = (''fuelType'' = f)"
    "(transmission d = []) = (''transmission'' = f)" "(bodyType d = []) = (''bodyType'' = f)"
    by (simp_all add: requiredFields_def)
  from assms(1) have which:
    "(f = ''make'' \<and> msg = ''Make is required'')
     \<or> (f = ''model'' \<and> msg = ''Model is required'')
     \<or> (f = ''price'' \<and> msg = ''Price is required'')
     \<or> (f = ''mileage'' \<and> msg = ''Mileage is required'')
     \<or> (f = ''color'' \<and> msg = ''Color is required'')
     \<or> (f = ''fuelType'' \<and> msg = ''Fuel type is required'')
     \<or> (f = ''transmission'' \<and> msg = ''Transmission is required'')
     \<or> (f = ''bodyType'' \<and> msg = ''Body type is required'')"
    by (auto simp: requiredFields_def)
  have one: "zodResolver (carFormSchema currentYear) d = [(f, msg)]"
    using which empty assms(3,4,5)
    by (elim disjE conjE)
       (simp_all add: carFormSchema_def zodResolver_Cons zodResolver_Nil
          string_min_def string_refine_def enum_check_def)
  have seats_key: "map_of (carFormSchema cy) ''seats'' = Some (\<lambda>d. None)" for cy
    by (simp add: carFormSchema_def)
  have "map_of (zodResolver (carFormSchema cy) d') ''seats'' = None" for cy d'
    by (simp add: zodResolver_lookup carFormSchema_distinct seats_key)
  then have "\<forall>cy d'. ''seats'' \<notin> fst ` set (zodResolver (carFormSchema cy) d')"
    by (simp add: map_of_eq_None_iff)
  with one show ?thesis by simp
qed

theorem missing_required_field_only_error_witness:
  "(''color'', color, ''Color is required'') \<in> set requiredFields
   \<and> year_refine 2025 (year (sampleDraft\<lparr>color := []\<rparr>))
   \<and> 10 \<le> length (description (sampleDraft\<lparr>color := []\<rparr>))
   \<and> status (sampleDraft\<lparr>color := []\<rparr>) \<in> set carStatuses
   \<and> zodResolver (carFormSchema 2025) (sampleDraft\<lparr>color := []\<rparr>)
       = [(''color'', ''Color is required'')]"
proof -
  let ?d = "sampleDraft\<lparr>color := []\<rparr>"
  have h1: "(''color'', color, ''Color is required'') \<in> set requiredFields"
    by (simp add: requiredFields_def)
  have h2: "\<forall>(g, selg, msgg) \<in> set requiredFields. (selg ?d = []) = (g = ''color'')"
    by (simp add: requiredFields_def sampleDraft_def)
  have p: "parseInt ''2022'' = Some 2022" by code_simp
  have h3: "year_refine 2025 (year ?d)"
    by (simp add: year_refine_def sampleDraft_def p)
  have h4: "10 \<le> length (description ?d)" by (simp add: sampleDraft_def)
  have h5: "status ?d \<in> set carStatuses" by (simp add: sampleDraft_def carStatuses_def)
  show ?thesis
    using h1 h3 h4 h5 missing_required_field_only_error [OF h1 h2 h3 h4 h5] by simp
qed

text \<open>
  C8. When \<^verbatim>\<open>processWithAI\<close> runs with an image stored and the call ends in an error,
  the effect on \<^verbatim>\<open>processImageError\<close> adds a notification carrying the error's message
  (a fixed text when the message is empty), whatever the hook itself reports. Nothing
  else changes but the stored error and the event list: the draft is the draft from
  before the call and the active tab is not switched. The effect alone, run on any state
  holding an error, only adds that notification.
\<close>

theorem processWithAI_error_keeps_draft:
  assumes "uploadedAiImage s = Some img"
  shows "processWithAI report (Rejected e) s
           = s\<lparr>processImageError := Some e,
               events := events s @ [ProcessCarImageWithAI img] @ report e
                 @ [ToastError (if message e = [] then ''Failed to process car image''
                                else message e)]\<rparr>
         \<and> ToastError (if message e = [] then ''Failed to process car image'' else message e)
             \<in> set (events (processWithAI report (Rejected e) s))
         \<and> draft (processWithAI report (Rejected e) s) = draft s
         \<and> activeTab (processWithAI report (Rejected e) s) = activeTab s
         \<and> (\<forall>t. processImageError t = Some e
               \<longrightarrow> processImageError_effect t
                   = t\<lparr>events := events t
                          @ [ToastError (if message e = [] then ''Failed to process car image''
                                         else message e)]\<rparr>)"
  using assms
  by (simp add: processWithAI_def processImageFn_def processImageError_effect_def toast_def)

theorem processWithAI_error_keeps_draft_witness:
  "uploadedAiImage (initialState\<lparr>activeTab := ''ai'', uploadedAiImage := Some frontJpg\<rparr>)
     = Some frontJpg
   \<and> events (processWithAI reportMessage (Rejected (Error ''quota exceeded''))
        (initialState\<lparr>activeTab := ''ai'', uploadedAiImage := Some frontJpg\<rparr>))
       = [ProcessCarImageWithAI frontJpg, ToastError ''quota exceeded'',
          ToastError ''quota exceeded'']
   \<and> draft (processWithAI reportMessage (Rejected (Error ''quota exceeded''))
        (initialState\<lparr>activeTab := ''ai'', uploadedAiImage := Some frontJpg\<rparr>))
       = defaultValues
   \<and> activeTab (processWithAI reportMessage (Rejected (Error ''quota exceeded''))
        (initialState\<lparr>activeTab := ''ai'', uploadedAiImage := Some frontJpg\<rparr>))
       = ''ai''"
proof -
  let ?s = "initialState\<lparr>activeTab := ''ai'', uploadedAiImage := Some frontJpg\<rparr>"
  have h: "uploadedAiImage ?s = Some frontJpg" by simp
  show ?thesis
    using h processWithAI_error_keeps_draft [OF h, of reportMessage "Error ''quota exceeded''"]
    by (simp add: initialState_def reportMessage_def)
qed

text \<open>
  C9. The button on the AI preview removes from the shared image list every element equal
  to the preview's data string: the list that remains is the old one without any
  occurrence of that string, shorter by the number of occurrences. So when the list held
  the same string before the AI drop appended it (a manual upload of the same image),
  that element goes as well and the list ends shorter than it was before the AI drop.
\<close>

theorem aiPreviewRemove_removes_every_equal:
  assumes "imagePreview s = Some p"
  shows "uploadedImages (aiPreviewRemove_onClick s) = filter (\<lambda>img. img \<noteq> p) (uploadedImages s)
         \<and> p \<notin> set (uploadedImages (aiPreviewRemove_onClick s))
         \<and> length (uploadedImages (aiPreviewRemove_onClick s)) + count_list (uploadedImages s) p
             = length (uploadedImages s)
         \<and> (\<forall>s0. s = aiReader_onload p s0 \<and> p \<in> set (uploadedImages s0)
               \<longrightarrow> length (uploadedImages (aiPreviewRemove_onClick s))
                     < length (uploadedImages s0))"
proof -
  have eq: "uploadedImages (aiPreviewRemove_onClick s) = filter (\<lambda>img. img \<noteq> p) (uploadedImages s)"
    using assms by (simp add: aiPreviewRemove_onClick_def)
  have count: "length (filter (\<lambda>img. img \<noteq> p) xs) + count_list xs p = length xs" for xs
    by (induction xs) simp_all
  have less: "p \<in> set xs \<Longrightarrow> length (filter (\<lambda>img. img \<noteq> p) xs) < length xs" for xs
    by (induction xs) (auto simp: less_Suc_eq_le)
  have scen: "\<forall>s0. s = aiReader_onload p s0 \<and> p \<in> set (uploadedImages s0)
               \<longrightarrow> length (uploadedImages (aiPreviewRemove_onClick s))
                     < length (uploadedImages s0)"
  proof (intro allI impI)
    fix s0
    assume a: "s = aiReader_onload p s0 \<and> p \<in> set (uploadedImages s0)"
    then have "uploadedImages s = uploadedImages s0 @ [p]"
      by (simp add: aiReader_onload_def)
    then have "uploadedImages (aiPreviewRemove_onClick s)
                 = filter (\<lambda>img. img \<noteq> p) (uploadedImages s0)"
      by (simp add: eq)
    with a less [of "uploadedImages s0"]
    show "length (uploadedImages (aiPreviewRemove_onClick s)) < length (uploadedImages s0)"
      by simp
  qed
  from eq count scen show ?thesis by simp
qed

theorem aiPreviewRemove_removes_every_equal_witness:
  "imagePreview (aiReader_onload ''data:front''
      (initialState\<lparr>uploadedImages := [''data:front'', ''data:side'']\<rparr>)) = Some ''data:front''
   \<and> uploadedImages (aiPreviewRemove_onClick (aiReader_onload ''data:front''
        (initialState\<lparr>uploadedImages := [''data:front'', ''data:side'']\<rparr>))) = [''data:side'']"
proof -
  let ?s = "aiReader_onload ''data:front''
              (initialState\<lparr>uploadedImages := [''data:front'', ''data:side'']\<rparr>)"
  have h: "imagePreview ?s = Some ''data:front''" by (simp add: aiReader_onload_def)
  show ?thesis
    using h aiPreviewRemove_removes_every_equal [OF h]
    by (simp add: aiReader_onload_def)
qed

text \<open>
  C10. The check of the \<^verbatim>\<open>year\<close> key reads its string with \<^verbatim>\<open>parseInt\<close>. So a string
  that begins with a run of decimal digits, goes on with a character that is no digit,
  and whose digits read as an integer between 1900 and the next calendar year, is
  accepted, with no entry for \<^verbatim>\<open>year\<close> among the errors, although it is the decimal
  string of no integer. \<^verbatim>\<open>2005abc\<close> is such a string.
\<close>

theorem year_accepts_digits_then_other:
  assumes "ds \<noteq> []" and "\<forall>c \<in> set ds. isDecimalDigit c"
    and "rest \<noteq> []" and "\<not> isDecimalDigit (hd rest)"
    and "1900 \<le> int (mathInt 10 ds)" and "int (mathInt 10 ds) \<le> currentYear + 1"
  shows "year_refine currentYear (ds @ rest)
         \<and> map_of (zodResolver (carFormSchema currentYear) (d\<lparr>year := ds @ rest\<rparr>)) ''year'' = None
         \<and> (\<forall>y. toString y \<noteq> ds @ rest)"
proof -
  have nohex: "\<not> (length ds = 1 \<and> rest \<noteq> [] \<and> hd ds = CHR ''0''
                  \<and> (hd rest = CHR ''x'' \<or> hd rest = CHR ''X''))"
  proof
    assume a: "length ds = 1 \<and> rest \<noteq> [] \<and> hd ds = CHR ''0''
                 \<and> (hd rest = CHR ''x'' \<or> hd rest = CHR ''X'')"
    then have "ds = ''0''" by (cases ds) auto
    then have "mathInt 10 ds = 0" by (simp add: mathInt_def digitValue_def)
    with assms(5) show False by simp
  qed
  have "parseInt (ds @ rest) = Some (int (mathInt 10 ds))"
    using assms(1,2,4) nohex by (intro parseInt_decimal_prefix) auto
  then have accept: "year_refine currentYear (ds @ rest)"
    using assms(5,6) by (simp add: year_refine_def)
  have key: "map_of (carFormSchema currentYear) ''year''
               = Some (\<lambda>d. string_refine (year_refine currentYear) ''Valid year required'' (year d))"
    by (simp add: carFormSchema_def)
  have entry: "map_of (zodResolver (carFormSchema currentYear) (d\<lparr>year := ds @ rest\<rparr>)) ''year'' = None"
    using accept by (simp add: zodResolver_lookup carFormSchema_distinct key string_refine_def)
  have other: "\<forall>y. toString y \<noteq> ds @ rest"
    using toString_not_digits_then_other [OF assms(1,2,3,4)] by simp
  from accept entry other show ?thesis by simp
qed

theorem year_accepts_digits_then_other_witness:
  "year_refine 2025 ''2005abc''
   \<and> map_of (zodResolver (carFormSchema 2025) (sampleDraft\<lparr>year := ''2005abc''\<rparr>)) ''year'' = None
   \<and> toString 2005 \<noteq> ''2005abc''"
proof -
  have h1: "''2005'' \<noteq> []" by simp
  have h2: "\<forall>c \<in> set ''2005''. isDecimalDigit c" by (simp add: isDecimalDigit_def)
  have h3: "''abc'' \<noteq> []" by simp
  have h4: "\<not> isDecimalDigit (hd ''abc'')" by (simp add: isDecimalDigit_def)
  have v: "mathInt 10 ''2005'' = 2005" by (simp add: mathInt_def digitValue_def)
  have h5: "1900 \<le> int (mathInt 10 ''2005'')" by (simp add: v)
  have h6: "int (mathInt 10 ''2005'') \<le> 2025 + 1" by (simp add: v)
  show ?thesis
    using year_accepts_digits_then_other [OF h1 h2 h3 h4 h5 h6, of sampleDraft] by simp
qed

end
